theory Spec2Isabelle
  imports Main "HOL-Library.Sublist"
begin

section \<open>Python values used by intel\_qsv.py\<close>

text \<open>
  A Python \<open>str\<close> is modelled as a \<^typ>\<open>string\<close> holding the bytes of its UTF-8
  encoding (the encoding of the source file), a Python \<open>int\<close> as \<^typ>\<open>int\<close>.
  Exceptions are values; the argument of a constructor is \<open>str(e)\<close>.
  \<open>OSError\<close> stands for the subclasses of OSError other than FileNotFoundError
  (FileExistsError, NotADirectoryError, PermissionError, ...).
\<close>

datatype exn =
    ValueError string
  | FileNotFoundError string
  | IndexError string
  | OSError string

text \<open>\<open>str(n)\<close> for an integer: decimal digits, a leading minus sign when negative.\<close>

definition digit_char :: "nat \<Rightarrow> char" where
  "digit_char d = ''0123456789'' ! d"

function str_nat :: "nat \<Rightarrow> string" where
  "str_nat n = (if n < 10 then [digit_char n] else str_nat (n div 10) @ [digit_char (n mod 10)])"
  by pat_completeness auto
termination
  by (relation "measure id") auto

declare str_nat.simps [simp del]

definition str_int :: "int \<Rightarrow> string" where
  "str_int i = (if i < 0 then CHR ''-'' # str_nat (nat (- i)) else str_nat (nat i))"

text \<open>\<open>sep.join(xs)\<close>.\<close>

fun join :: "string \<Rightarrow> string list \<Rightarrow> string" where
  "join sep [] = []"
| "join sep [x] = x"
| "join sep (x # y # ys) = x @ sep @ join sep (y # ys)"

text \<open>
  \<open>s.replace(old, new)\<close> for a pattern \<open>old\<close> of one character: every occurrence of
  the character is replaced, all other characters are kept.
\<close>

fun replace_char :: "char \<Rightarrow> string \<Rightarrow> string \<Rightarrow> string" where
  "replace_char old new [] = []"
| "replace_char old new (c # cs) =
     (if c = old then new @ replace_char old new cs else c # replace_char old new cs)"

text \<open>\<open>xs.index(x)\<close>: the position of the first occurrence, ValueError when there is none.\<close>

fun first_index :: "'a \<Rightarrow> 'a list \<Rightarrow> nat option" where
  "first_index x [] = None"
| "first_index x (y # ys) = (if y = x then Some 0 else map_option Suc (first_index x ys))"

definition list_index :: "string list \<Rightarrow> string \<Rightarrow> exn + int" where
  "list_index xs x =
     (case first_index x xs of
        None \<Rightarrow> Inl (ValueError ([CHR 0x27] @ x @ [CHR 0x27] @ '' is not in list''))
      | Some i \<Rightarrow> Inr (int i))"

text \<open>\<open>xs[i] = v\<close>: negative indices count from the end, IndexError out of range.\<close>

definition list_setitem :: "'a list \<Rightarrow> int \<Rightarrow> 'a \<Rightarrow> exn + 'a list" where
  "list_setitem xs i v =
     (if 0 \<le> i \<and> i < int (length xs) then Inr (xs[nat i := v])
      else if i < 0 \<and> - int (length xs) \<le> i then Inr (xs[nat (int (length xs) + i) := v])
      else Inl (IndexError ''list assignment index out of range''))"

section \<open>Paths (pathlib, POSIX flavour)\<close>

text \<open>
  A pure POSIX path as pathlib holds it after parsing: the anchor (\<open>''''\<close> for a relative
  path, \<open>''/''\<close> or \<open>''//''\<close> for an absolute one) and the list of its components.
\<close>

datatype path = PurePath (anchor: string) (tail: "string list")

text \<open>
  The components of a parsed path are never empty, never \<open>.\<close> and hold no \<open>/\<close>; the
  operations below are pathlib's on such paths.
\<close>

definition wf_path :: "path \<Rightarrow> bool" where
  "wf_path p =
     (anchor p \<in> set [[], ''/'', ''//''] \<and>
      list_all (\<lambda>c. c \<noteq> [] \<and> c \<noteq> ''.'' \<and> CHR ''/'' \<notin> set c) (tail p))"

text \<open>\<open>s.split(c)\<close> for a separator of one character.\<close>

fun split_char :: "char \<Rightarrow> string \<Rightarrow> string list" where
  "split_char c [] = [[]]"
| "split_char c (x # xs) =
     (if x = c then [] # split_char c xs
      else (case split_char c xs of
              [] \<Rightarrow> [[x]]
            | w # ws \<Rightarrow> (x # w) # ws))"

text \<open>
  \<open>Path(s)\<close>: \<open>posixpath.splitroot\<close> takes the anchor off (exactly two leading slashes
  are kept as \<open>//\<close>, one or more than two are \<open>/\<close>), the rest is split at \<open>/\<close>, and
  empty components and \<open>.\<close> are dropped.
\<close>

definition splitroot :: "string \<Rightarrow> string \<times> string" where
  "splitroot p =
     (if take 1 p \<noteq> ''/'' then ([], p)
      else if take 1 (drop 1 p) \<noteq> ''/'' \<or> take 1 (drop 2 p) = ''/'' then (''/'', drop 1 p)
      else (take 2 p, drop 2 p))"

definition Path :: "string \<Rightarrow> path" where
  "Path s =
     (case splitroot s of
        (root, rel) \<Rightarrow> PurePath root (filter (\<lambda>x. x \<noteq> [] \<and> x \<noteq> ''.'') (split_char CHR ''/'' rel)))"

text \<open>\<open>str(p)\<close>.\<close>

definition str_path :: "path \<Rightarrow> string" where
  "str_path p =
     (if anchor p = [] \<and> tail p = [] then ''.'' else anchor p @ join ''/'' (tail p))"

text \<open>\<open>p.name\<close>: the last component, the empty string when there is none.\<close>

definition path_name :: "path \<Rightarrow> string" where
  "path_name p = (if tail p = [] then [] else last (tail p))"

text \<open>\<open>s.rfind(c)\<close>: the position of the last occurrence of the character, \<open>-1\<close> if none.\<close>

definition rfind :: "string \<Rightarrow> char \<Rightarrow> int" where
  "rfind s c =
     (case first_index c (rev s) of
        None \<Rightarrow> - 1
      | Some k \<Rightarrow> int (length s) - 1 - int k)"

text \<open>
  \<open>p.suffix\<close> and \<open>p.stem\<close>: the name is cut at its last dot, unless that dot is the
  first or the last character of the name.
\<close>

definition path_suffix :: "path \<Rightarrow> string" where
  "path_suffix p =
     (let name = path_name p; i = rfind name CHR ''.''
      in if 0 < i \<and> i < int (length name) - 1 then drop (nat i) name else [])"

definition path_stem :: "path \<Rightarrow> string" where
  "path_stem p =
     (let name = path_name p; i = rfind name CHR ''.''
      in if 0 < i \<and> i < int (length name) - 1 then take (nat i) name else name)"

text \<open>\<open>p.parent\<close>.\<close>

definition path_parent :: "path \<Rightarrow> path" where
  "path_parent p = (if tail p = [] then p else PurePath (anchor p) (butlast (tail p)))"

text \<open>
  \<open>p.with_name(name)\<close>, as Python 3.12 and later have it: ValueError when \<open>p\<close> has
  no name, and when the new name is empty, is \<open>.\<close> or holds a separator. (Python 3.11
  and earlier accept a new name with a separator in it when it parses to a single
  component, as \<open>x/.\<close> does. The theorems below call \<open>with_name\<close> on names without a
  separator only, where all versions agree; the evaluated runs with the suffix \<open>a/b\<close> raise
  in every version. The texts of pathlib's messages are shortened.)
\<close>

definition with_name :: "path \<Rightarrow> string \<Rightarrow> exn + path" where
  "with_name p name =
     (if path_name p = [] then Inl (ValueError ''path has an empty name'')
      else if name = [] \<or> CHR ''/'' \<in> set name \<or> name = ''.''
      then Inl (ValueError ''Invalid name'')
      else Inr (PurePath (anchor p) (butlast (tail p) @ [name])))"

text \<open>
  \<open>p.relative_to(other)\<close>: \<open>other\<close> must be \<open>p\<close> or one of its parents (the same
  anchor, and components that \<open>p\<close>'s start with); ValueError otherwise.
\<close>

definition relative_to :: "path \<Rightarrow> path \<Rightarrow> exn + path" where
  "relative_to p other =
     (if anchor p = anchor other \<and> take (length (tail other)) (tail p) = tail other
      then Inr (PurePath [] (drop (length (tail other)) (tail p)))
      else Inl (ValueError ''path is not in the subpath of the other''))"

text \<open>\<open>a / b\<close>: an absolute \<open>b\<close> replaces \<open>a\<close>, a relative one is appended.\<close>

definition joinpath :: "path \<Rightarrow> path \<Rightarrow> path" where
  "joinpath a b = (if anchor b \<noteq> [] then b else PurePath (anchor a) (tail a @ tail b))"

section \<open>Validation\<close>

text \<open>The messages of the source, as the bytes of their UTF-8 encoding.\<close>

definition msg_invalid_quality :: string where
  "msg_invalid_quality =
     [CHR 0xE8, CHR 0xA7, CHR 0x86, CHR 0xE9, CHR 0xA2, CHR 0x91, CHR 0xE8, CHR 0xB4,
      CHR 0xA8, CHR 0xE9, CHR 0x87, CHR 0x8F, CHR 0xE5, CHR 0x8F, CHR 0x82, CHR 0xE6,
      CHR 0x95, CHR 0xB0, CHR 0xE6, CHR 0x97, CHR 0xA0, CHR 0xE6, CHR 0x95, CHR 0x88,
      CHR 0xEF, CHR 0xBC, CHR 0x8C, CHR 0xE5, CHR 0xBF, CHR 0x85, CHR 0xE9, CHR 0xA1,
      CHR 0xBB, CHR 0xE5, CHR 0x9C, CHR 0xA8] @ '' 0 '' @
     [CHR 0xE5, CHR 0x88, CHR 0xB0] @ '' 51 '' @
     [CHR 0xE4, CHR 0xB9, CHR 0x8B, CHR 0xE9, CHR 0x97, CHR 0xB4]"

definition validate_video_quality :: "int \<Rightarrow> exn + unit" where
  "validate_video_quality video_quality =
     (if \<not> (0 \<le> video_quality \<and> video_quality \<le> 51)
      then Inl (ValueError msg_invalid_quality)
      else Inr ())"

definition msg_invalid_codec :: string where
  "msg_invalid_codec =
     [CHR 0xE8, CHR 0xA7, CHR 0x86, CHR 0xE9, CHR 0xA2, CHR 0x91, CHR 0xE7, CHR 0xBC,
      CHR 0x96, CHR 0xE7, CHR 0xA0, CHR 0x81, CHR 0xE5, CHR 0x8F, CHR 0x82, CHR 0xE6,
      CHR 0x95, CHR 0xB0, CHR 0xE6, CHR 0x97, CHR 0xA0, CHR 0xE6, CHR 0x95, CHR 0x88,
      CHR 0xEF, CHR 0xBC, CHR 0x8C, CHR 0xE4, CHR 0xBB, CHR 0x85, CHR 0xE6, CHR 0x94,
      CHR 0xAF, CHR 0xE6, CHR 0x8C, CHR 0x81] @ '' hevc_qsv '' @
     [CHR 0xE5, CHR 0x92, CHR 0x8C] @ '' h264_qsv''"

definition validate_video_codec :: "string \<Rightarrow> exn + unit" where
  "validate_video_codec video_codec =
     (if video_codec \<notin> set [''hevc_qsv'', ''h264_qsv'']
      then Inl (ValueError msg_invalid_codec)
      else Inr ())"

section \<open>The command builder\<close>

text \<open>A comma escaped for the filter syntax: the two characters backslash and comma.\<close>

definition esc_comma :: string where
  "esc_comma = [CHR 0x5C, CHR '','']"

text \<open>A single quote.\<close>

definition squote :: string where
  "squote = [CHR 0x27]"

text \<open>The f-string that is the value of \<open>-vf\<close>.\<close>

definition drawtext_filter :: "string \<Rightarrow> int \<Rightarrow> string \<Rightarrow> string" where
  "drawtext_filter font_color font_size escaped_font_file =
     ''drawtext=fontcolor='' @ font_color @ '':fontsize='' @ str_int font_size @
     '':fontfile='' @ squote @ escaped_font_file @ squote @ '':text='PINSE.CLUB':'' @
     ''x='if(eq(mod(n'' @ esc_comma @ ''2000)'' @ esc_comma @ ''0)'' @ esc_comma @
       ''rand(0'' @ esc_comma @ ''(w-text_w))'' @ esc_comma @ ''x)':'' @
     ''y='if(eq(mod(n'' @ esc_comma @ ''2000)'' @ esc_comma @ ''0)'' @ esc_comma @
       ''rand(0'' @ esc_comma @ ''(h-text_h))'' @ esc_comma @ ''y)':'' @
     ''enable='lt(mod(n'' @ esc_comma @ ''2000)'' @ esc_comma @ ''1200)'' @ squote"

text \<open>The list literal that \<open>build_ffmpeg_command\<close> starts from.\<close>

definition base_command ::
  "path \<Rightarrow> path \<Rightarrow> string \<Rightarrow> string \<Rightarrow> int \<Rightarrow> string \<Rightarrow> int \<Rightarrow> string list" where
  "base_command file output_file_name escaped_font_file font_color font_size
                video_codec video_quality =
     [''ffmpeg'',
      ''-hwaccel_output_format'', ''qsv'',
      ''-i'', str_path file,
      ''-vf'', drawtext_filter font_color font_size escaped_font_file,
      ''-c:v'', video_codec,
      ''-global_quality'', str_int video_quality,
      ''-c:a'', ''copy'',
      ''-y'', str_path output_file_name]"

text \<open>
  The truth value of the \<open>bitrate\<close> argument: \<open>None\<close> and the empty string are false.
\<close>

fun truthy :: "string option \<Rightarrow> bool" where
  "truthy None = False"
| "truthy (Some s) = (s \<noteq> [])"

text \<open>
  \<open>build_ffmpeg_command\<close>: every statement that can raise is a branch. In the bitrate
  branch \<open>bitrate\<close> is a non-empty string.
\<close>

definition build_ffmpeg_command ::
  "path \<Rightarrow> path \<Rightarrow> string \<Rightarrow> string \<Rightarrow> int \<Rightarrow> string \<Rightarrow> int \<Rightarrow> string option
     \<Rightarrow> exn + string list" where
  "build_ffmpeg_command file output_file_name escaped_font_file font_color font_size
                        video_codec video_quality bitrate =
     (let ffmpeg_command = base_command file output_file_name escaped_font_file font_color
                             font_size video_codec video_quality
      in if truthy bitrate then
           (case list_index ffmpeg_command ''-global_quality'' of
              Inl e \<Rightarrow> Inl e
            | Inr crf_index \<Rightarrow>
                if crf_index \<ge> 0 then
                  (case list_setitem ffmpeg_command crf_index ''-b:v'' of
                     Inl e \<Rightarrow> Inl e
                   | Inr c1 \<Rightarrow> list_setitem c1 (crf_index + 1) (the bitrate))
                else Inr ffmpeg_command)
         else Inr ffmpeg_command)"

section \<open>The values main computes for one file\<close>

text \<open>\<open>escaped_font_file = str(font_file).replace('\\', '/')\<close>.\<close>

definition escaped_font_file_of :: "path \<Rightarrow> string" where
  "escaped_font_file_of font_file = replace_char (CHR 0x5C) ''/'' (str_path font_file)"

text \<open>
  \<open>relative_path = file.relative_to(input_directory)\<close> and
  \<open>output_file_name = output_directory / relative_path.with_name(...)\<close>, the new name being
  the f-string \<open>{relative_path.stem}_{output_suffix}{relative_path.suffix}\<close>.
\<close>

definition output_file_name_of :: "path \<Rightarrow> path \<Rightarrow> string \<Rightarrow> path \<Rightarrow> exn + path" where
  "output_file_name_of input_directory output_directory output_suffix file =
     (case relative_to file input_directory of
        Inl e \<Rightarrow> Inl e
      | Inr relative_path \<Rightarrow>
          (case with_name relative_path
                  (path_stem relative_path @ ''_'' @ output_suffix @ path_suffix relative_path) of
             Inl e \<Rightarrow> Inl e
           | Inr renamed \<Rightarrow> Inr (joinpath output_directory renamed)))"

section \<open>The environment\<close>

text \<open>
  What the program asks of its environment: \<open>Path.exists\<close>,
  \<open>Path.mkdir(parents=True, exist_ok=True)\<close>, \<open>Path.rglob\<close> and \<open>subprocess.run\<close>. The
  state \<open>'w\<close> of the environment is left open. \<open>exists\<close> and \<open>rglob\<close> read it;
  \<open>mkdir\<close> and \<open>run\<close> may change it and may raise (a directory that cannot be made, a
  program that cannot be started); \<open>run\<close> otherwise yields the exit status of the
  process. Standard output is assumed to take every line printed.
\<close>

record 'w os =
  os_exists :: "'w \<Rightarrow> path \<Rightarrow> bool"
  os_mkdir :: "path \<Rightarrow> 'w \<Rightarrow> exn option \<times> 'w"
  os_rglob :: "'w \<Rightarrow> path \<Rightarrow> string \<Rightarrow> path list"
  os_run :: "string list \<Rightarrow> 'w \<Rightarrow> (exn + int) \<times> 'w"

text \<open>
  What a run does, in order: a line printed, a call of \<open>mkdir\<close>, a call of
  \<open>subprocess.run\<close>. A run ends by \<open>exit\<close> with a status (falling off the end of the
  script is status 0) or by an exception nobody catches (a traceback, status 1).
\<close>

datatype event = Printed string | Mkdir path | Ran "string list"

datatype outcome = Exited int | Uncaught exn


text \<open>\<open>str(e)\<close>, and the classes named by \<open>except (ValueError, FileNotFoundError)\<close>.\<close>

fun str_exn :: "exn \<Rightarrow> string" where
  "str_exn (ValueError m) = m"
| "str_exn (FileNotFoundError m) = m"
| "str_exn (IndexError m) = m"
| "str_exn (OSError m) = m"

fun caught :: "exn \<Rightarrow> bool" where
  "caught (ValueError m) = True"
| "caught (FileNotFoundError m) = True"
| "caught e = False"

section \<open>The checks that touch the environment\<close>

definition msg_font_missing :: string where
  "msg_font_missing =
     [CHR 0xE5, CHR 0xAD, CHR 0x97, CHR 0xE4, CHR 0xBD, CHR 0x93, CHR 0xE6, CHR 0x96,
      CHR 0x87, CHR 0xE4, CHR 0xBB, CHR 0xB6, CHR 0xE4, CHR 0xB8, CHR 0x8D, CHR 0xE5,
      CHR 0xAD, CHR 0x98, CHR 0xE5, CHR 0x9C, CHR 0xA8, CHR 0xEF, CHR 0xBC, CHR 0x9A]"

definition ensure_font_file_exists :: "'w os \<Rightarrow> 'w \<Rightarrow> path \<Rightarrow> exn + unit" where
  "ensure_font_file_exists os w font_file =
     (if \<not> os_exists os w font_file
      then Inl (FileNotFoundError (msg_font_missing @ str_path font_file))
      else Inr ())"

definition ensure_output_directory_exists ::
  "'w os \<Rightarrow> path \<Rightarrow> event list \<times> 'w \<Rightarrow> exn option \<times> event list \<times> 'w" where
  "ensure_output_directory_exists os output_directory st =
     (case os_mkdir os output_directory (snd st) of
        (r, w') \<Rightarrow> (r, fst st @ [Mkdir output_directory], w'))"

section \<open>Discovery\<close>

text \<open>The loop of \<open>check_video_files\<close>, the list \<open>video_files\<close> being the accumulator.\<close>

fun extend_each :: "(string \<Rightarrow> path list) \<Rightarrow> string list \<Rightarrow> path list \<Rightarrow> path list" where
  "extend_each rglob [] video_files = video_files"
| "extend_each rglob (ext # exts) video_files =
     extend_each rglob exts (video_files @ rglob ext)"

definition check_video_files :: "'w os \<Rightarrow> 'w \<Rightarrow> path \<Rightarrow> string list \<Rightarrow> path list" where
  "check_video_files os w input_directory video_extensions =
     extend_each (os_rglob os w input_directory) video_extensions []"

definition video_extensions :: "string list" where
  "video_extensions =
     [''*.mp4'', ''*.avi'', ''*.mkv'', ''*.mov'', ''*.wmv'', ''*.flv'', ''*.ts'', ''*.vob'',
      ''*.webm'', ''*.3gp'', ''*.m4v'', ''*.rmvb'']"

section \<open>The dispatcher\<close>

text \<open>The namespace that argparse hands to \<open>main\<close>.\<close>

record args =
  arg_input_directory :: string
  arg_output_directory :: string
  arg_output_suffix :: string
  arg_video_quality :: int
  arg_video_codec :: string
  arg_font_size :: int
  arg_font_color :: string
  arg_font_file :: string
  arg_bitrate :: "string option"

definition msg_no_video_files :: "path \<Rightarrow> string" where
  "msg_no_video_files input_directory =
     [CHR 0xE8, CHR 0xBE, CHR 0x93, CHR 0xE5, CHR 0x85, CHR 0xA5, CHR 0xE7, CHR 0x9B,
      CHR 0xAE, CHR 0xE5, CHR 0xBD, CHR 0x95] @ '' '' @ squote @
     str_path input_directory @ squote @ '' '' @
     [CHR 0xE4, CHR 0xB8, CHR 0xAD, CHR 0xE6, CHR 0xB2, CHR 0xA1, CHR 0xE6, CHR 0x9C,
      CHR 0x89, CHR 0xE6, CHR 0x89, CHR 0xBE, CHR 0xE5, CHR 0x88, CHR 0xB0, CHR 0xE4,
      CHR 0xBB, CHR 0xBB, CHR 0xE4, CHR 0xBD, CHR 0x95, CHR 0xE8, CHR 0xA7, CHR 0x86,
      CHR 0xE9, CHR 0xA2, CHR 0x91, CHR 0xE6, CHR 0x96, CHR 0x87, CHR 0xE4, CHR 0xBB,
      CHR 0xB6]"

definition msg_found :: "path \<Rightarrow> nat \<Rightarrow> string" where
  "msg_found input_directory n =
     [CHR 0xE5, CHR 0x9C, CHR 0xA8, CHR 0xE8, CHR 0xBE, CHR 0x93, CHR 0xE5, CHR 0x85,
      CHR 0xA5, CHR 0xE7, CHR 0x9B, CHR 0xAE, CHR 0xE5, CHR 0xBD, CHR 0x95] @ '' '' @ squote @
     str_path input_directory @ squote @ '' '' @
     [CHR 0xE4, CHR 0xB8, CHR 0xAD, CHR 0xE6, CHR 0x89, CHR 0xBE, CHR 0xE5, CHR 0x88,
      CHR 0xB0] @ '' '' @ str_int (int n) @ '' '' @
     [CHR 0xE4, CHR 0xB8, CHR 0xAA, CHR 0xE8, CHR 0xA7, CHR 0x86, CHR 0xE9, CHR 0xA2,
      CHR 0x91, CHR 0xE6, CHR 0x96, CHR 0x87, CHR 0xE4, CHR 0xBB, CHR 0xB6]"

definition msg_progress :: "int \<Rightarrow> nat \<Rightarrow> path \<Rightarrow> path \<Rightarrow> string" where
  "msg_progress idx n file output_file_name =
     ''['' @ str_int idx @ ''/'' @ str_int (int n) @ ''] '' @
     [CHR 0xE6, CHR 0xAD, CHR 0xA3, CHR 0xE5, CHR 0x9C, CHR 0xA8, CHR 0xE5, CHR 0xA4,
      CHR 0x84, CHR 0xE7, CHR 0x90, CHR 0x86, CHR 0xE6, CHR 0x96, CHR 0x87, CHR 0xE4,
      CHR 0xBB, CHR 0xB6] @ '': '' @
     str_path file @ '' -> '' @ str_path output_file_name"

definition msg_done :: string where
  "msg_done =
     [CHR 0xE6, CHR 0x89, CHR 0x80, CHR 0xE6, CHR 0x9C, CHR 0x89, CHR 0xE8, CHR 0xA7,
      CHR 0x86, CHR 0xE9, CHR 0xA2, CHR 0x91, CHR 0xE6, CHR 0x96, CHR 0x87, CHR 0xE4,
      CHR 0xBB, CHR 0xB6, CHR 0xE5, CHR 0xA4, CHR 0x84, CHR 0xE7, CHR 0x90, CHR 0x86,
      CHR 0xE5, CHR 0xAE, CHR 0x8C, CHR 0xE6, CHR 0x88, CHR 0x90]"

text \<open>
  The body of the \<open>try\<close>: the four checks in order, the first exception ends it. The
  state is the list of events so far and the environment.
\<close>

definition validate_all ::
  "'w os \<Rightarrow> args \<Rightarrow> event list \<times> 'w \<Rightarrow> exn option \<times> event list \<times> 'w" where
  "validate_all os a st =
     (case validate_video_quality (arg_video_quality a) of
        Inl e \<Rightarrow> (Some e, st)
      | Inr _ \<Rightarrow>
     (case validate_video_codec (arg_video_codec a) of
        Inl e \<Rightarrow> (Some e, st)
      | Inr _ \<Rightarrow>
     (case ensure_font_file_exists os (snd st) (Path (arg_font_file a)) of
        Inl e \<Rightarrow> (Some e, st)
      | Inr _ \<Rightarrow>
     ensure_output_directory_exists os (Path (arg_output_directory a)) st)))"

text \<open>
  The body of the \<open>for\<close> loop for one file: the output path, its parent directory, the
  command, the progress line, the encoder. The value \<open>subprocess.run\<close> returns is dropped.
\<close>

definition process_file ::
  "'w os \<Rightarrow> args \<Rightarrow> nat \<Rightarrow> int \<Rightarrow> path \<Rightarrow> event list \<times> 'w
     \<Rightarrow> exn option \<times> event list \<times> 'w" where
  "process_file os a n idx file st =
     (case output_file_name_of (Path (arg_input_directory a)) (Path (arg_output_directory a))
             (arg_output_suffix a) file of
        Inl e \<Rightarrow> (Some e, st)
      | Inr output_file_name \<Rightarrow>
     (case os_mkdir os (path_parent output_file_name) (snd st) of
        (Some e, w1) \<Rightarrow> (Some e, fst st @ [Mkdir (path_parent output_file_name)], w1)
      | (None, w1) \<Rightarrow>
     (case build_ffmpeg_command file output_file_name
             (escaped_font_file_of (Path (arg_font_file a))) (arg_font_color a)
             (arg_font_size a) (arg_video_codec a) (arg_video_quality a) (arg_bitrate a) of
        Inl e \<Rightarrow> (Some e, fst st @ [Mkdir (path_parent output_file_name)], w1)
      | Inr ffmpeg_command \<Rightarrow>
     (case os_run os ffmpeg_command w1 of
        (Inl e, w2) \<Rightarrow>
          (Some e, fst st @ [Mkdir (path_parent output_file_name),
                             Printed (msg_progress idx n file output_file_name),
                             Ran ffmpeg_command], w2)
      | (Inr returncode, w2) \<Rightarrow>
          (None, fst st @ [Mkdir (path_parent output_file_name),
                           Printed (msg_progress idx n file output_file_name),
                           Ran ffmpeg_command], w2)))))"

text \<open>The loop over \<open>enumerate(video_files, start=1)\<close>; an exception ends it.\<close>

fun process_files ::
  "'w os \<Rightarrow> args \<Rightarrow> nat \<Rightarrow> int \<Rightarrow> path list \<Rightarrow> event list \<times> 'w
     \<Rightarrow> exn option \<times> event list \<times> 'w" where
  "process_files os a n idx [] st = (None, st)"
| "process_files os a n idx (file # files) st =
     (case process_file os a n idx file st of
        (Some e, st') \<Rightarrow> (Some e, st')
      | (None, st') \<Rightarrow> process_files os a n (idx + 1) files st')"

text \<open>
  \<open>main\<close>, from the environment \<open>w\<close>: how the run ends, what it did, and the
  environment it leaves.
\<close>

definition main :: "'w os \<Rightarrow> args \<Rightarrow> 'w \<Rightarrow> outcome \<times> event list \<times> 'w" where
  "main os a w =
     (case validate_all os a ([], w) of
        (Some e, log, w1) \<Rightarrow>
          (if caught e then (Exited 1, log @ [Printed (str_exn e)], w1)
           else (Uncaught e, log, w1))
      | (None, log, w1) \<Rightarrow>
          (let video_files =
                 check_video_files os w1 (Path (arg_input_directory a)) video_extensions
           in if video_files = []
              then (Exited 1,
                    log @ [Printed (msg_no_video_files (Path (arg_input_directory a)))], w1)
              else
                (case process_files os a (length video_files) 1 video_files
                        (log @ [Printed (msg_found (Path (arg_input_directory a))
                                           (length video_files))], w1) of
                   (Some e, log', w') \<Rightarrow> (Uncaught e, log', w')
                 | (None, log', w') \<Rightarrow> (Exited 0, log' @ [Printed msg_done], w'))))"

section \<open>A file system of trees\<close>

text \<open>
  An environment to run the program in: the entries of the working directory, each a
  regular file or a directory with its entries. A relative path is looked up from the
  working directory; an absolute one below a top directory named as its anchor.
  Links and permissions are not modelled.
\<close>

datatype entry = File string | Dir string "entry list"

datatype kind = RegularFile | Directory

fun entry_name :: "entry \<Rightarrow> string" where
  "entry_name (File n) = n"
| "entry_name (Dir n es) = n"

fun entry_kind :: "entry \<Rightarrow> kind" where
  "entry_kind (File n) = RegularFile"
| "entry_kind (Dir n es) = Directory"

text \<open>Every entry below a directory, as its components from there, with its kind.\<close>

fun entries_of :: "entry \<Rightarrow> (string list \<times> kind) list" where
  "entries_of (File n) = [([n], RegularFile)]"
| "entries_of (Dir n es) =
     ([n], Directory) # map (\<lambda>(r, k). (n # r, k)) (concat (map entries_of es))"

definition entries_below :: "entry list \<Rightarrow> (string list \<times> kind) list" where
  "entries_below es = concat (map entries_of es)"

text \<open>
  Matching a name against a pattern of \<open>fnmatch\<close>, case-sensitive: \<open>*\<close> is any run of
  characters, \<open>?\<close> any one character, every other character is itself. (Character
  classes \<open>[...]\<close> are not modelled; no pattern of the program has one.)
\<close>

fun glob_match :: "string \<Rightarrow> string \<Rightarrow> bool" where
  "glob_match [] s = (s = [])"
| "glob_match (p # ps) [] = (p = CHR ''*'' \<and> glob_match ps [])"
| "glob_match (p # ps) (c # cs) =
     (if p = CHR ''*'' then glob_match ps (c # cs) \<or> glob_match (p # ps) cs
      else (p = CHR ''?'' \<or> p = c) \<and> glob_match ps cs)"

text \<open>
  \<open>rglob(pattern)\<close> for a pattern that is one name pattern: the directory and then each
  directory below it is scanned, and every entry of it whose name matches is yielded,
  a regular file or a directory alike. \<open>rel\<close> is the way from the root to the directory.
\<close>

fun scan_entry :: "string \<Rightarrow> string list \<Rightarrow> entry \<Rightarrow> string list list" where
  "scan_entry pat rel (File n) = []"
| "scan_entry pat rel (Dir n es) =
     map (\<lambda>e. rel @ [n, entry_name e]) (filter (\<lambda>e. glob_match pat (entry_name e)) es) @
     concat (map (scan_entry pat (rel @ [n])) es)"

definition scan_dir :: "string \<Rightarrow> entry list \<Rightarrow> string list list" where
  "scan_dir pat es =
     map (\<lambda>e. [entry_name e]) (filter (\<lambda>e. glob_match pat (entry_name e)) es) @
     concat (map (scan_entry pat []) es)"

text \<open>Looking a path up.\<close>

definition locate :: "path \<Rightarrow> string list" where
  "locate p = (if anchor p = [] then tail p else anchor p # tail p)"

fun find_entry :: "string \<Rightarrow> entry list \<Rightarrow> entry option" where
  "find_entry n [] = None"
| "find_entry n (e # es) = (if entry_name e = n then Some e else find_entry n es)"

fun lookup :: "entry list \<Rightarrow> string list \<Rightarrow> entry option" where
  "lookup es [] = None"
| "lookup es [n] = find_entry n es"
| "lookup es (n # m # ns) =
     (case find_entry n es of
        Some (Dir d cs) \<Rightarrow> lookup cs (m # ns)
      | _ \<Rightarrow> None)"

definition dir_content :: "entry list \<Rightarrow> string list \<Rightarrow> entry list option" where
  "dir_content es p =
     (if p = [] then Some es
      else (case lookup es p of Some (Dir d cs) \<Rightarrow> Some cs | _ \<Rightarrow> None))"

definition tree_exists :: "entry list \<Rightarrow> path \<Rightarrow> bool" where
  "tree_exists w p = (locate p = [] \<or> lookup w (locate p) \<noteq> None)"

definition tree_rglob :: "entry list \<Rightarrow> path \<Rightarrow> string \<Rightarrow> path list" where
  "tree_rglob w root pat =
     (case dir_content w (locate root) of
        None \<Rightarrow> []
      | Some es \<Rightarrow> map (\<lambda>r. PurePath (anchor root) (tail root @ r)) (scan_dir pat es))"

text \<open>
  \<open>mkdir(parents=True, exist_ok=True)\<close>: the missing directories of the path are made;
  a regular file in the way is an OSError (FileExistsError, NotADirectoryError).
\<close>

fun new_dirs :: "string list \<Rightarrow> entry list" where
  "new_dirs [] = []"
| "new_dirs (n # ns) = [Dir n (new_dirs ns)]"

fun replace_entry :: "string \<Rightarrow> entry \<Rightarrow> entry list \<Rightarrow> entry list" where
  "replace_entry n e' [] = []"
| "replace_entry n e' (e # es) =
     (if entry_name e = n then e' # es else e # replace_entry n e' es)"

fun make_dirs :: "string list \<Rightarrow> entry list \<Rightarrow> exn + entry list" where
  "make_dirs [] es = Inr es"
| "make_dirs (n # ns) es =
     (case find_entry n es of
        None \<Rightarrow> Inr (es @ new_dirs (n # ns))
      | Some (File f) \<Rightarrow> Inl (OSError ''a regular file is in the way'')
      | Some (Dir d cs) \<Rightarrow>
          (case make_dirs ns cs of
             Inl e \<Rightarrow> Inl e
           | Inr cs' \<Rightarrow> Inr (replace_entry n (Dir d cs') es)))"

definition tree_mkdir :: "path \<Rightarrow> entry list \<Rightarrow> exn option \<times> entry list" where
  "tree_mkdir p w =
     (case make_dirs (locate p) w of
        Inl e \<Rightarrow> (Some e, w)
      | Inr w' \<Rightarrow> (None, w'))"

text \<open>
  The environment of trees, for an encoder \<open>enc\<close>; and an encoder that writes nothing
  and exits with status 1.
\<close>

definition tree_os ::
  "(string list \<Rightarrow> entry list \<Rightarrow> (exn + int) \<times> entry list) \<Rightarrow> (entry list) os" where
  "tree_os enc =
     \<lparr>os_exists = tree_exists, os_mkdir = tree_mkdir, os_rglob = tree_rglob, os_run = enc\<rparr>"

definition failing_encoder :: "string list \<Rightarrow> entry list \<Rightarrow> (exn + int) \<times> entry list" where
  "failing_encoder cmd w = (Inr 1, w)"

section \<open>What a run is expected to do\<close>

text \<open>
  The output path and the command of an iteration of the loop that raises nothing, and
  the three events of such an iteration.
\<close>

definition planned_output :: "args \<Rightarrow> path \<Rightarrow> path" where
  "planned_output a file =
     projr (output_file_name_of (Path (arg_input_directory a))
              (Path (arg_output_directory a)) (arg_output_suffix a) file)"

definition planned_command :: "args \<Rightarrow> path \<Rightarrow> string list" where
  "planned_command a file =
     projr (build_ffmpeg_command file (planned_output a file)
              (escaped_font_file_of (Path (arg_font_file a))) (arg_font_color a)
              (arg_font_size a) (arg_video_codec a) (arg_video_quality a) (arg_bitrate a))"




text \<open>
  A run to evaluate: the directories and the suffix of the specification's example, the
  other options at their defaults, on a small tree.
\<close>

definition example_args :: args where
  "example_args =
     \<lparr>arg_input_directory = ''In'', arg_output_directory = ''Out'',
      arg_output_suffix = ''wm'', arg_video_quality = 18, arg_video_codec = ''hevc_qsv'',
      arg_font_size = 30, arg_font_color = ''white'', arg_font_file = ''./fonts/SimSun.ttf'',
      arg_bitrate = None\<rparr>"

definition example_tree :: "entry list" where
  "example_tree =
     [Dir ''fonts'' [File ''SimSun.ttf''], Dir ''In'' [Dir ''sub'' [File ''clip.mov'']]]"

text \<open>The entries at or below an entry whose names match a pattern.\<close>

definition matching :: "string \<Rightarrow> entry \<Rightarrow> string list set" where
  "matching pat e = {r. \<exists>k. (r, k) \<in> set (entries_of e) \<and> glob_match pat (last r)}"

text \<open>
  The reading of the specification's sentence on the font path, for comparison with the
  code: in a string scanned from the left, a backslash escapes the character after it,
  and every colon and comma has to be escaped.
\<close>

fun colons_commas_escaped :: "string \<Rightarrow> bool" where
  "colons_commas_escaped [] = True"
| "colons_commas_escaped (c # cs) =
     (if c = CHR 0x5C then colons_commas_escaped (tl cs)
      else c \<noteq> CHR '':'' \<and> c \<noteq> CHR '','' \<and> colons_commas_escaped cs)"

section \<open>Properties of the values\<close>

lemma digit_char_in: "d < 10 \<Longrightarrow> digit_char d \<in> set ''0123456789''"
  unfolding digit_char_def by (rule nth_mem) simp

lemma str_nat_digits: "set (str_nat n) \<subseteq> set ''0123456789''"
proof (induction n rule: str_nat.induct)
  case (1 n)
  show ?case
  proof (cases "n < 10")
    case True
    then show ?thesis using digit_char_in[of n] by (subst str_nat.simps) simp
  next
    case False
    have "digit_char (n mod 10) \<in> set ''0123456789''" by (rule digit_char_in) simp
    with False 1 show ?thesis by (subst str_nat.simps) simp
  qed
qed

lemma str_nat_nonempty: "str_nat n \<noteq> []"
  by (subst str_nat.simps) simp

lemma str_nat_Cons: "\<exists>d ds. str_nat n = d # ds \<and> d \<in> set ''0123456789''"
proof (cases "str_nat n")
  case Nil
  then show ?thesis using str_nat_nonempty by simp
next
  case (Cons d ds)
  then have "d \<in> set (str_nat n)" by simp
  then show ?thesis using Cons str_nat_digits by blast
qed

text \<open>No rendering of an integer is a string whose first two characters are not digits.\<close>

lemma str_int_not_flag:
  assumes "s = a # b # r" "a \<notin> set ''0123456789''" "b \<notin> set ''0123456789''"
  shows "str_int i \<noteq> s"
proof
  assume e: "str_int i = s"
  show False
  proof (cases "i < 0")
    case True
    obtain d ds where "str_nat (nat (- i)) = d # ds" "d \<in> set ''0123456789''"
      using str_nat_Cons by blast
    with True e assms show False by (simp add: str_int_def)
  next
    case False
    obtain d ds where "str_nat (nat i) = d # ds" "d \<in> set ''0123456789''"
      using str_nat_Cons by blast
    with False e assms show False by (simp add: str_int_def)
  qed
qed

lemma str_int_not_bv: "str_int i \<noteq> ''-b:v''"
  by (rule str_int_not_flag[where a = "CHR ''-''" and b = "CHR ''b''"]) simp_all

lemma str_int_not_gq: "str_int i \<noteq> ''-global_quality''"
  by (rule str_int_not_flag[where a = "CHR ''-''" and b = "CHR ''g''"]) simp_all

lemma drawtext_filter_hd: "drawtext_filter c s f = CHR ''d'' # tl (drawtext_filter c s f)"
  by (simp add: drawtext_filter_def)

lemma drawtext_not_bv: "drawtext_filter c s f \<noteq> ''-b:v''"
  by (subst drawtext_filter_hd) simp

lemma drawtext_not_gq: "drawtext_filter c s f \<noteq> ''-global_quality''"
  by (subst drawtext_filter_hd) simp

text \<open>What \<open>Path\<close> makes of any string is a well-formed path.\<close>

lemma split_char_nonempty: "split_char c s \<noteq> []"
  by (induction s) (auto split: list.splits)

lemma split_char_no_sep: "x \<in> set (split_char c s) \<Longrightarrow> c \<notin> set x"
proof (induction s arbitrary: x)
  case Nil
  then show ?case by simp
next
  case (Cons a s)
  show ?case
  proof (cases "a = c")
    case True
    with Cons show ?thesis by auto
  next
    case False
    obtain w ws where w: "split_char c s = w # ws"
      using split_char_nonempty[of c s] by (cases "split_char c s") auto
    with Cons.prems False have "x = a # w \<or> x \<in> set ws" by simp
    then show ?thesis
    proof
      assume "x = a # w"
      moreover have "c \<notin> set w" using Cons.IH[of w] w by simp
      ultimately show ?thesis using False by simp
    next
      assume "x \<in> set ws"
      then show ?thesis using Cons.IH[of x] w by simp
    qed
  qed
qed

lemma splitroot_anchor: "fst (splitroot s) \<in> set [[], ''/'', ''//'']"
proof (cases s)
  case Nil
  then show ?thesis by (simp add: splitroot_def)
next
  case (Cons a t)
  show ?thesis
  proof (cases t)
    case Nil
    with Cons show ?thesis by (simp add: splitroot_def)
  next
    case (Cons b u)
    with \<open>s = a # t\<close> show ?thesis by (auto simp: splitroot_def)
  qed
qed

lemma wf_path_Path: "wf_path (Path s)"
proof -
  obtain root rel where r: "splitroot s = (root, rel)" by (cases "splitroot s")
  have "root \<in> set [[], ''/'', ''//'']" using splitroot_anchor[of s] r by simp
  then show ?thesis
    using split_char_no_sep[of _ "CHR ''/''" rel]
    by (auto simp: wf_path_def Path_def r list_all_iff)
qed

section \<open>Validation of the quality\<close>

text \<open>
  C6. For every integer \<open>q\<close>, \<open>validate_video_quality q\<close> raises (a ValueError, the
  invalid-parameter error) if and only if \<open>q < 0\<close> or \<open>q > 51\<close>; it returns normally
  for every \<open>q\<close> with \<open>0 \<le> q \<le> 51\<close>, the bounds \<open>0\<close> and \<open>51\<close> included.
\<close>

theorem validate_video_quality_iff:
  "((\<exists>m. validate_video_quality q = Inl (ValueError m)) \<longleftrightarrow> (q < 0 \<or> q > 51)) \<and>
   ((validate_video_quality q = Inr ()) \<longleftrightarrow> (0 \<le> q \<and> q \<le> 51)) \<and>
   validate_video_quality 0 = Inr () \<and> validate_video_quality 51 = Inr ()"
  by (auto simp: validate_video_quality_def)

section \<open>The command builder: the two branches\<close>

lemma base_command_length: "length (base_command f out e c s v q) = 15"
  by (simp add: base_command_def)

text \<open>
  Where \<open>index\<close> finds the flag: the input file (slot 4) and the codec (slot 8) come
  before the flag's own slot 9, and the filter string (slot 6) is never the flag.
\<close>

lemma first_index_base:
  "first_index ''-global_quality'' (base_command f out e c s v q) =
     Some (if str_path f = ''-global_quality'' then 4
           else if v = ''-global_quality'' then 8 else 9)"
  using drawtext_not_gq[of c s e] by (simp add: base_command_def)

lemma build_no_bitrate:
  "\<not> truthy b \<Longrightarrow>
     build_ffmpeg_command f out e c s v q b = Inr (base_command f out e c s v q)"
  by (simp add: build_ffmpeg_command_def)

lemma build_bitrate:
  "b \<noteq> [] \<Longrightarrow> build_ffmpeg_command f out e c s v q (Some b) =
     Inr (let i = (if str_path f = ''-global_quality'' then 4
                   else if v = ''-global_quality'' then 8 else 9)
          in (base_command f out e c s v q)[i := ''-b:v'', Suc i := b])"
  by (simp add: build_ffmpeg_command_def list_index_def first_index_base list_setitem_def
      base_command_length Let_def)

section \<open>The font path in the filter\<close>

lemma replace_char_map:
  "replace_char old [new] s = map (\<lambda>c. if c = old then new else c) s"
  by (induction s) auto

lemma build_slot6:
  "\<exists>cmd. build_ffmpeg_command f out e c s v q b = Inr cmd \<and>
         cmd ! 6 = drawtext_filter c s e"
proof (cases "truthy b")
  case True
  then obtain r where r: "b = Some r" "r \<noteq> []" by (cases b) auto
  show ?thesis unfolding r(1) build_bitrate[OF r(2)]
    by (simp add: base_command_def)
next
  case False
  then show ?thesis by (simp add: build_no_bitrate base_command_def)
qed

text \<open>
  C3, as the code has it. The font path is embedded in the filter with every backslash
  replaced by a forward slash and every other character as it is: nothing is escaped,
  colons and commas included, and no backslash is left in it. For every font path, the
  \<open>-vf\<close> argument of the built command (slot 6) holds exactly this string between the
  quotes of \<open>fontfile='...'\<close>.
\<close>

theorem font_path_embedded:
  "escaped_font_file_of font_file =
     map (\<lambda>c. if c = CHR 0x5C then CHR ''/'' else c) (str_path font_file) \<and>
   CHR 0x5C \<notin> set (escaped_font_file_of font_file) \<and>
   (\<exists>cmd rest. build_ffmpeg_command file output_file_name (escaped_font_file_of font_file)
             font_color font_size video_codec video_quality bitrate = Inr cmd \<and>
       cmd ! 6 = ''drawtext=fontcolor='' @ font_color @ '':fontsize='' @ str_int font_size @
                 '':fontfile='' @ squote @ escaped_font_file_of font_file @ squote @
                 '':text='' @ rest)"
proof -
  have a: "escaped_font_file_of font_file =
     map (\<lambda>c. if c = CHR 0x5C then CHR ''/'' else c) (str_path font_file)"
    by (simp add: escaped_font_file_of_def replace_char_map)
  have b: "CHR 0x5C \<notin> set (escaped_font_file_of font_file)"
    unfolding a by auto
  obtain cmd where c: "build_ffmpeg_command file output_file_name
      (escaped_font_file_of font_file) font_color font_size video_codec video_quality bitrate
        = Inr cmd"
    "cmd ! 6 = drawtext_filter font_color font_size (escaped_font_file_of font_file)"
    using build_slot6 by blast
  obtain rest where d: "drawtext_filter font_color font_size (escaped_font_file_of font_file) =
      ''drawtext=fontcolor='' @ font_color @ '':fontsize='' @ str_int font_size @
                 '':fontfile='' @ squote @ escaped_font_file_of font_file @ squote @
                 '':text='' @ rest"
    unfolding drawtext_filter_def by simp
  have e: "\<exists>cmd rest. build_ffmpeg_command file output_file_name
      (escaped_font_file_of font_file) font_color font_size video_codec video_quality bitrate
        = Inr cmd \<and>
       cmd ! 6 = ''drawtext=fontcolor='' @ font_color @ '':fontsize='' @ str_int font_size @
                 '':fontfile='' @ squote @ escaped_font_file_of font_file @ squote @
                 '':text='' @ rest"
    using c d by (intro exI[of _ cmd] exI[of _ rest]) simp
  from a b e show ?thesis by (intro conjI)
qed

text \<open>
  C3 as stated fails: the font path \<open>fonts/a,b.ttf\<close> is embedded unchanged, its comma
  not escaped.
\<close>

theorem font_path_comma_unescaped:
  "escaped_font_file_of (Path ''fonts/a,b.ttf'') = ''fonts/a,b.ttf'' \<and>
   \<not> colons_commas_escaped (escaped_font_file_of (Path ''fonts/a,b.ttf''))"
  by code_simp

section \<open>The output path\<close>

lemma path_stem_suffix: "path_stem p @ path_suffix p = path_name p"
  by (simp add: path_stem_def path_suffix_def Let_def)

lemma path_stem_subset: "set (path_stem p) \<subseteq> set (path_name p)"
  by (auto simp: path_stem_def Let_def dest: in_set_takeD)

lemma path_suffix_subset: "set (path_suffix p) \<subseteq> set (path_name p)"
  by (auto simp: path_suffix_def Let_def dest: in_set_dropD)

lemma path_name_snoc [simp]: "path_name (PurePath a (ds @ [n])) = n"
  by (simp add: path_name_def)

lemma path_stem_cong: "path_name p = path_name q \<Longrightarrow> path_stem p = path_stem q"
  by (simp add: path_stem_def)

lemma path_suffix_cong: "path_name p = path_name q \<Longrightarrow> path_suffix p = path_suffix q"
  by (simp add: path_suffix_def)

lemma new_name_valid:
  assumes "CHR ''/'' \<notin> set (path_name p)" "CHR ''/'' \<notin> set sfx"
  shows "path_stem p @ ''_'' @ sfx @ path_suffix p \<noteq> []"
    and "path_stem p @ ''_'' @ sfx @ path_suffix p \<noteq> ''.''"
    and "CHR ''/'' \<notin> set (path_stem p @ ''_'' @ sfx @ path_suffix p)"
proof -
  show "path_stem p @ ''_'' @ sfx @ path_suffix p \<noteq> []" by simp
  have "CHR ''_'' \<in> set (path_stem p @ ''_'' @ sfx @ path_suffix p)" by simp
  moreover have "CHR ''_'' \<notin> set ''.''" by simp
  ultimately show "path_stem p @ ''_'' @ sfx @ path_suffix p \<noteq> ''.''" by metis
  show "CHR ''/'' \<notin> set (path_stem p @ ''_'' @ sfx @ path_suffix p)"
    using assms path_stem_subset[of p] path_suffix_subset[of p] by auto
qed

lemma output_file_name_of_under:
  assumes "anchor file = anchor input_directory"
    and "tail file = tail input_directory @ dirs @ [name]"
    and "name \<noteq> []" and "CHR ''/'' \<notin> set name"
    and "CHR ''/'' \<notin> set output_suffix"
  shows "output_file_name_of input_directory output_directory output_suffix file =
         Inr (PurePath (anchor output_directory)
               (tail output_directory @ dirs @
                [path_stem file @ ''_'' @ output_suffix @ path_suffix file]))"
proof -
  let ?rel = "PurePath [] (dirs @ [name])"
  have nf: "path_name file = name" using assms(2) by (simp add: path_name_def)
  have r: "relative_to file input_directory = Inr ?rel"
    using assms(1,2) by (simp add: relative_to_def)
  have st: "path_stem ?rel = path_stem file" "path_suffix ?rel = path_suffix file"
    using nf by (simp_all add: path_stem_cong path_suffix_cong)
  let ?new = "path_stem file @ ''_'' @ output_suffix @ path_suffix file"
  have v: "?new \<noteq> []" "?new \<noteq> ''.''" "CHR ''/'' \<notin> set ?new"
    using new_name_valid[where p = "file" and sfx = output_suffix] assms(4,5) nf by simp_all
  have w: "with_name ?rel ?new = Inr (PurePath [] (dirs @ [?new]))"
    using v assms(3) unfolding with_name_def by simp
  show ?thesis
    using w by (simp add: output_file_name_of_def r st joinpath_def)
qed

text \<open>
  C4, as the code has it. For a file under the input root (its path is the root's
  followed by directories \<open>dirs\<close> and a name, which as every file name is not empty
  and holds no separator), and a suffix that holds no path separator,
  the output path is the output root joined with the same directories and the file name
  \<open>{stem}_{suffix}{extension}\<close>, stem and extension being pathlib's and together the
  original name. Input root \<open>In\<close>, file \<open>In/sub/clip.mov\<close>, output root \<open>Out\<close>, suffix
  \<open>wm\<close> give \<open>Out/sub/clip_wm.mov\<close>.
\<close>

theorem output_path_mirrored:
  assumes "anchor file = anchor input_directory"
    and "tail file = tail input_directory @ dirs @ [name]"
    and "name \<noteq> []" and "CHR ''/'' \<notin> set name"
    and "CHR ''/'' \<notin> set output_suffix"
  shows "output_file_name_of input_directory output_directory output_suffix file =
           Inr (joinpath output_directory (PurePath [] (dirs @
                  [path_stem file @ ''_'' @ output_suffix @ path_suffix file]))) \<and>
         path_stem file @ path_suffix file = name \<and>
         map_sum id str_path
           (output_file_name_of (Path ''In'') (Path ''Out'') ''wm'' (Path ''In/sub/clip.mov'')) =
           Inr ''Out/sub/clip_wm.mov''"
proof -
  have a: "output_file_name_of input_directory output_directory output_suffix file =
           Inr (joinpath output_directory (PurePath [] (dirs @
                  [path_stem file @ ''_'' @ output_suffix @ path_suffix file])))"
    using output_file_name_of_under[OF assms] by (simp add: joinpath_def)
  have b: "path_stem file @ path_suffix file = name"
    using assms(2) by (simp add: path_stem_suffix path_name_def)
  have c: "map_sum id str_path
           (output_file_name_of (Path ''In'') (Path ''Out'') ''wm'' (Path ''In/sub/clip.mov'')) =
           Inr ''Out/sub/clip_wm.mov''"
    by code_simp
  from a b c show ?thesis by simp
qed

text \<open>The theorem at the example of the specification.\<close>

theorem output_path_mirrored_witness:
  "output_file_name_of (PurePath [] [''In'']) (PurePath [] [''Out'']) ''wm''
     (PurePath [] [''In'', ''sub'', ''clip.mov'']) =
   Inr (PurePath [] [''Out'', ''sub'', ''clip_wm.mov''])"
proof -
  have s: "path_stem (PurePath [] [''In'', ''sub'', ''clip.mov'']) = ''clip''"
    "path_suffix (PurePath [] [''In'', ''sub'', ''clip.mov'']) = ''.mov''"
    by code_simp+
  show ?thesis
    using output_path_mirrored[of "PurePath [] [''In'', ''sub'', ''clip.mov'']" "PurePath [] [''In'']"
        "[''sub'']" "''clip.mov''" "''wm''" "PurePath [] [''Out'']"]
    by (simp add: s joinpath_def)
qed

text \<open>
  C4 as stated fails: for the suffix \<open>a/b\<close> no output path is computed, \<open>with_name\<close>
  raises ValueError.
\<close>

theorem output_path_suffix_separator:
  "output_file_name_of (Path ''In'') (Path ''Out'') ''a/b'' (Path ''In/sub/clip.mov'') =
     Inl (ValueError ''Invalid name'')"
  by code_simp

section \<open>What discovery returns\<close>

lemma glob_match_literal:
  "CHR ''*'' \<notin> set lit \<Longrightarrow> CHR ''?'' \<notin> set lit \<Longrightarrow> glob_match lit s \<longleftrightarrow> s = lit"
proof (induction lit arbitrary: s)
  case Nil
  then show ?case by simp
next
  case (Cons p ps)
  then show ?case by (cases s) auto
qed

lemma glob_match_star_literal:
  assumes "CHR ''*'' \<notin> set lit" "CHR ''?'' \<notin> set lit"
  shows "glob_match (CHR ''*'' # lit) s \<longleftrightarrow> suffix lit s"
proof (induction s)
  case Nil
  show ?case using glob_match_literal[OF assms, of "[]"] by auto
next
  case (Cons c cs)
  show ?case using Cons glob_match_literal[OF assms, of "c # cs"]
    by (auto simp: suffix_Cons)
qed

lemma video_extensions_match:
  "(\<exists>pat \<in> set video_extensions. glob_match pat n) \<longleftrightarrow>
   (\<exists>ext \<in> set [''.mp4'', ''.avi'', ''.mkv'', ''.mov'', ''.wmv'', ''.flv'', ''.ts'', ''.vob'',
                  ''.webm'', ''.3gp'', ''.m4v'', ''.rmvb'']. suffix ext n)"
  unfolding video_extensions_def
  by (simp add: glob_match_star_literal del: glob_match.simps)

lemma extend_each_concat: "extend_each rg exts acc = acc @ concat (map rg exts)"
  by (induction exts arbitrary: acc) simp_all

lemma check_video_files_concat:
  "check_video_files os w d exts = concat (map (os_rglob os w d) exts)"
  by (simp add: check_video_files_def extend_each_concat)

lemma entries_of_nonempty: "(r, k) \<in> set (entries_of e) \<Longrightarrow> r \<noteq> []"
  by (cases e) auto

lemma scan_entry_shift: "scan_entry pat rel e = map ((@) rel) (scan_entry pat [] e)"
proof (induction e arbitrary: rel)
  case (File n)
  show ?case by simp
next
  case (Dir n es)
  have "concat (map (scan_entry pat (rel @ [n])) es) =
        map ((@) rel) (concat (map (scan_entry pat [n]) es))"
  proof -
    have "\<And>e. e \<in> set es \<Longrightarrow> scan_entry pat (rel @ [n]) e = map ((@) rel) (scan_entry pat [n] e)"
    proof -
      fix e assume e: "e \<in> set es"
      have "scan_entry pat (rel @ [n]) e = map ((@) (rel @ [n])) (scan_entry pat [] e)"
        using Dir[OF e] .
      also have "\<dots> = map ((@) rel) (map ((@) [n]) (scan_entry pat [] e))" by simp
      also have "map ((@) [n]) (scan_entry pat [] e) = scan_entry pat [n] e"
        using Dir[OF e, of "[n]"] by simp
      finally show "scan_entry pat (rel @ [n]) e = map ((@) rel) (scan_entry pat [n] e)" .
    qed
    then show ?thesis by (simp add: map_concat cong: map_cong)
  qed
  then show ?case by (simp add: comp_def)
qed

lemma matching_iff:
  "r \<in> matching pat e \<longleftrightarrow> (\<exists>k. (r, k) \<in> set (entries_of e) \<and> glob_match pat (last r))"
  by (simp add: matching_def)

lemma entries_of_Dir_iff:
  "(r, k) \<in> set (entries_of (Dir n es)) \<longleftrightarrow>
     (r = [n] \<and> k = Directory) \<or>
     (\<exists>r'. r = n # r' \<and> (r', k) \<in> set (concat (map entries_of es)))"
  by force

lemma matching_entry:
  "matching pat e =
     (if glob_match pat (entry_name e) then {[entry_name e]} else {}) \<union>
     set (scan_entry pat [] e)"
proof (induction e)
  case (File n)
  show ?case by (auto simp: matching_def)
next
  case (Dir n es)
  have below: "{r. \<exists>k. (r, k) \<in> set (concat (map entries_of es)) \<and> glob_match pat (last r)}
      = (\<Union>e \<in> set es. matching pat e)"
    by (auto simp: matching_def)
  have scan: "set (scan_entry pat [] (Dir n es)) =
      (#) n ` (\<Union>e \<in> set es. (if glob_match pat (entry_name e) then {[entry_name e]} else {}) \<union>
                  set (scan_entry pat [] e))"
  proof -
    have "\<And>e. scan_entry pat [n] e = map ((#) n) (scan_entry pat [] e)"
      using scan_entry_shift[of pat "[n]"] by simp
    then show ?thesis by (auto simp: image_iff split: if_splits)
  qed
  have "matching pat (Dir n es) = (if glob_match pat n then {[n]} else {}) \<union>
      (#) n ` {r. \<exists>k. (r, k) \<in> set (concat (map entries_of es)) \<and> glob_match pat (last r)}"
    (is "_ = ?top \<union> (#) n ` ?B")
  proof (rule set_eqI)
    fix r
    show "r \<in> matching pat (Dir n es) \<longleftrightarrow> r \<in> ?top \<union> (#) n ` ?B"
    proof
      assume "r \<in> matching pat (Dir n es)"
      then obtain k where k: "(r, k) \<in> set (entries_of (Dir n es))"
        and g: "glob_match pat (last r)"
        unfolding matching_iff by blast
      from k consider "r = [n]"
        | r' where "r = n # r'" "(r', k) \<in> set (concat (map entries_of es))"
        unfolding entries_of_Dir_iff by blast
      then show "r \<in> ?top \<union> (#) n ` ?B"
      proof cases
        case 1
        with g show ?thesis by simp
      next
        case 2
        then have "r' \<noteq> []" by (auto dest: entries_of_nonempty)
        with 2 g have "glob_match pat (last r')" by simp
        with 2 show ?thesis by auto
      qed
    next
      assume "r \<in> ?top \<union> (#) n ` ?B"
      then consider "glob_match pat n" "r = [n]"
        | r' k where "r = n # r'" "(r', k) \<in> set (concat (map entries_of es))"
            "glob_match pat (last r')"
        by (auto split: if_splits)
      then show "r \<in> matching pat (Dir n es)"
      proof cases
        case 1
        have "([n], Directory) \<in> set (entries_of (Dir n es))"
          unfolding entries_of_Dir_iff by simp
        with 1 show ?thesis unfolding matching_iff by auto
      next
        case 2
        then have ne: "r' \<noteq> []" by (auto dest: entries_of_nonempty)
        have "(n # r', k) \<in> set (entries_of (Dir n es))"
          unfolding entries_of_Dir_iff using 2(2) by blast
        moreover have "glob_match pat (last (n # r'))" using ne 2(3) by simp
        ultimately show ?thesis unfolding matching_iff 2(1) by blast
      qed
    qed
  qed
  also have "\<dots> = (if glob_match pat n then {[n]} else {}) \<union>
      (#) n ` (\<Union>e \<in> set es. matching pat e)"
    unfolding below ..
  also have "(\<Union>e \<in> set es. matching pat e) =
      (\<Union>e \<in> set es. (if glob_match pat (entry_name e) then {[entry_name e]} else {}) \<union>
                  set (scan_entry pat [] e))"
    using Dir by simp
  finally show ?case unfolding scan by simp
qed

lemma set_scan_dir:
  "set (scan_dir pat es) =
     {r. \<exists>k. (r, k) \<in> set (entries_below es) \<and> glob_match pat (last r)}"
proof -
  have "set (scan_dir pat es) =
      (\<Union>e \<in> set es. (if glob_match pat (entry_name e) then {[entry_name e]} else {}) \<union>
                  set (scan_entry pat [] e))"
    by (auto simp: scan_dir_def split: if_splits)
  also have "\<dots> = (\<Union>e \<in> set es. matching pat e)"
    by (simp add: matching_entry)
  also have "\<dots> = {r. \<exists>k. (r, k) \<in> set (entries_below es) \<and> glob_match pat (last r)}"
    by (auto simp: matching_def entries_below_def)
  finally show ?thesis .
qed

lemma set_check_video_files_tree:
  assumes "dir_content w (locate root) = Some es"
  shows "set (check_video_files (tree_os enc) w root pats) =
     {PurePath (anchor root) (tail root @ r) | r.
        \<exists>k. (r, k) \<in> set (entries_below es) \<and> (\<exists>pat \<in> set pats. glob_match pat (last r))}"
  using assms
  by (auto simp: check_video_files_concat tree_os_def tree_rglob_def set_scan_dir)


text \<open>
  C5, as the code has it, on a tree of regular files and directories. Among the regular
  files below the root, at any depth, discovery returns exactly those whose name ends
  in one of the twelve extensions \<open>.mp4 .avi .mkv .mov .wmv .flv .ts .vob .webm .3gp .m4v
  .rmvb\<close>, letter case as written (the twelve patterns \<open>*.ext\<close>); and everything it
  returns is an entry below the root with such a name. A directory holding \<open>a.mp4\<close>,
  \<open>b.MP4\<close> and \<open>c.txt\<close>, searched with \<open>*.mp4\<close> alone, gives exactly \<open>a.mp4\<close>.
\<close>

theorem discovery_matches_patterns:
  assumes "dir_content w (locate root) = Some es"
  shows "(\<forall>r. (r, RegularFile) \<in> set (entries_below es) \<longrightarrow>
            (PurePath (anchor root) (tail root @ r)
               \<in> set (check_video_files (tree_os enc) w root video_extensions) \<longleftrightarrow>
             (\<exists>ext \<in> set [''.mp4'', ''.avi'', ''.mkv'', ''.mov'', ''.wmv'', ''.flv'', ''.ts'',
                            ''.vob'', ''.webm'', ''.3gp'', ''.m4v'', ''.rmvb''].
                suffix ext (last r)))) \<and>
         (\<forall>p \<in> set (check_video_files (tree_os enc) w root video_extensions).
            \<exists>r k. p = PurePath (anchor root) (tail root @ r) \<and>
                  (r, k) \<in> set (entries_below es) \<and>
                  (\<exists>ext \<in> set [''.mp4'', ''.avi'', ''.mkv'', ''.mov'', ''.wmv'', ''.flv'',
                                 ''.ts'', ''.vob'', ''.webm'', ''.3gp'', ''.m4v'', ''.rmvb''].
                     suffix ext (last r))) \<and>
         check_video_files (tree_os enc)
           [Dir ''In'' [File ''a.mp4'', File ''b.MP4'', File ''c.txt'']] (Path ''In'')
           [''*.mp4''] = [Path ''In/a.mp4'']"
proof -
  let ?found = "set (check_video_files (tree_os enc) w root video_extensions)"
  let ?exts = "[''.mp4'', ''.avi'', ''.mkv'', ''.mov'', ''.wmv'', ''.flv'', ''.ts'',
                ''.vob'', ''.webm'', ''.3gp'', ''.m4v'', ''.rmvb'']"
  have found: "?found = {PurePath (anchor root) (tail root @ r) | r.
        \<exists>k. (r, k) \<in> set (entries_below es) \<and> (\<exists>ext \<in> set ?exts. suffix ext (last r))}"
    unfolding set_check_video_files_tree[OF assms] video_extensions_match ..
  have a: "\<forall>r. (r, RegularFile) \<in> set (entries_below es) \<longrightarrow>
            (PurePath (anchor root) (tail root @ r) \<in> ?found \<longleftrightarrow>
             (\<exists>ext \<in> set ?exts. suffix ext (last r)))"
    unfolding found by blast
  have b: "\<forall>p \<in> ?found.
            \<exists>r k. p = PurePath (anchor root) (tail root @ r) \<and>
                  (r, k) \<in> set (entries_below es) \<and>
                  (\<exists>ext \<in> set ?exts. suffix ext (last r))"
    unfolding found by blast
  have c: "check_video_files (tree_os enc)
           [Dir ''In'' [File ''a.mp4'', File ''b.MP4'', File ''c.txt'']] (Path ''In'')
           [''*.mp4''] = [Path ''In/a.mp4'']"
    by (simp add: check_video_files_def tree_os_def tree_rglob_def Path_def splitroot_def
        locate_def dir_content_def scan_dir_def)
  from a b c show ?thesis by (intro conjI)
qed

text \<open>The theorem on the directory of the example, with the twelve patterns.\<close>

theorem discovery_matches_patterns_witness:
  "PurePath [] [''In'', ''a.mp4'']
     \<in> set (check_video_files (tree_os failing_encoder)
              [Dir ''In'' [File ''a.mp4'', File ''b.MP4'', File ''c.txt'']]
              (PurePath [] [''In'']) video_extensions) \<and>
   PurePath [] [''In'', ''b.MP4'']
     \<notin> set (check_video_files (tree_os failing_encoder)
              [Dir ''In'' [File ''a.mp4'', File ''b.MP4'', File ''c.txt'']]
              (PurePath [] [''In'']) video_extensions) \<and>
   PurePath [] [''In'', ''c.txt'']
     \<notin> set (check_video_files (tree_os failing_encoder)
              [Dir ''In'' [File ''a.mp4'', File ''b.MP4'', File ''c.txt'']]
              (PurePath [] [''In'']) video_extensions)"
proof -
  let ?w = "[Dir ''In'' [File ''a.mp4'', File ''b.MP4'', File ''c.txt'']]"
  let ?es = "[File ''a.mp4'', File ''b.MP4'', File ''c.txt'']"
  have d: "dir_content ?w (locate (PurePath [] [''In''])) = Some ?es"
    by (simp add: dir_content_def locate_def)
  have e: "([''a.mp4''], RegularFile) \<in> set (entries_below ?es)"
    "([''b.MP4''], RegularFile) \<in> set (entries_below ?es)"
    "([''c.txt''], RegularFile) \<in> set (entries_below ?es)"
    by (simp_all add: entries_below_def)
  from discovery_matches_patterns[OF d, of failing_encoder] e show ?thesis
    by (simp add: suffix_to_prefix)
qed

text \<open>
  C5 as stated fails: \<open>rglob\<close> does not tell directories from files, so a directory
  named \<open>d.mp4\<close> is returned although the tree holds no file with a matching name.
\<close>

theorem discovery_returns_directory:
  "check_video_files (tree_os failing_encoder) [Dir ''In'' [Dir ''d.mp4'' [File ''c.txt'']]]
     (Path ''In'') video_extensions = [PurePath [] [''In'', ''d.mp4'']] \<and>
   entries_below [Dir ''d.mp4'' [File ''c.txt'']] =
     [([''d.mp4''], Directory), ([''d.mp4'', ''c.txt''], RegularFile)]"
  by code_simp

section \<open>The command for a discovered file\<close>

text \<open>
  What \<open>main\<close> passes to the builder: a codec that passed \<open>validate_video_codec\<close>, a file
  whose name matches one of the patterns of discovery, and the output path computed
  for it. The paths of such a file and of its output hold a dot, so neither is a flag.
\<close>

lemma set_join_last: "xs \<noteq> [] \<Longrightarrow> set (last xs) \<subseteq> set (join sep xs)"
  by (induction sep xs rule: join.induct) auto

lemma str_path_holds_name: "tail p \<noteq> [] \<Longrightarrow> set (path_name p) \<subseteq> set (str_path p)"
  using set_join_last[of "tail p" "''/''"] by (auto simp: path_name_def str_path_def)

lemma matching_name_dot:
  assumes "\<exists>pat \<in> set video_extensions. glob_match pat n"
  shows "CHR ''.'' \<in> set n"
proof -
  from assms obtain ext where
    e: "ext \<in> set [''.mp4'', ''.avi'', ''.mkv'', ''.mov'', ''.wmv'', ''.flv'', ''.ts'', ''.vob'',
                  ''.webm'', ''.3gp'', ''.m4v'', ''.rmvb'']" and s: "suffix ext n"
    unfolding video_extensions_match by blast
  from e have "CHR ''.'' \<in> set ext" by auto
  with s show ?thesis by (auto simp: suffix_def)
qed

lemma discovered_path_dot:
  assumes "\<exists>pat \<in> set video_extensions. glob_match pat (path_name file)"
  shows "CHR ''.'' \<in> set (str_path file)"
proof -
  have d: "CHR ''.'' \<in> set (path_name file)" using matching_name_dot[OF assms] .
  then have "tail file \<noteq> []" by (auto simp: path_name_def)
  from str_path_holds_name[OF this] d show ?thesis by blast
qed

lemma output_path_dot:
  assumes "\<exists>pat \<in> set video_extensions. glob_match pat (path_name file)"
    and "output_file_name_of input_directory output_directory output_suffix file
           = Inr output_file_name"
  shows "CHR ''.'' \<in> set (str_path output_file_name)"
proof -
  have d: "CHR ''.'' \<in> set (path_name file)" using matching_name_dot[OF assms(1)] .
  from assms(2) obtain rel renamed where
    r: "relative_to file input_directory = Inr rel" and
    w: "with_name rel (path_stem rel @ ''_'' @ output_suffix @ path_suffix rel) = Inr renamed"
    and o: "output_file_name = joinpath output_directory renamed"
    by (auto simp: output_file_name_of_def split: sum.splits)
  from r have rel: "rel = PurePath [] (drop (length (tail input_directory)) (tail file))"
    by (auto simp: relative_to_def split: if_splits)
  from w have ne: "path_name rel \<noteq> []"
    and ren: "renamed = PurePath (anchor rel) (butlast (tail rel) @
                 [path_stem rel @ ''_'' @ output_suffix @ path_suffix rel])"
    by (auto simp: with_name_def split: if_splits)
  from ne have t: "tail rel \<noteq> []" by (auto simp: path_name_def)
  then have "path_name rel = path_name file"
    unfolding rel by (auto simp: path_name_def)
  with d path_stem_suffix[of rel] have "CHR ''.'' \<in> set (path_stem rel) \<union> set (path_suffix rel)"
    by (metis set_append)
  then have n: "CHR ''.'' \<in> set (path_stem rel @ ''_'' @ output_suffix @ path_suffix rel)"
    by auto
  have "path_name output_file_name = path_stem rel @ ''_'' @ output_suffix @ path_suffix rel"
    and "tail output_file_name \<noteq> []"
    unfolding o ren rel by (simp_all add: joinpath_def path_name_def)
  with n str_path_holds_name[of output_file_name] show ?thesis by auto
qed

lemma dot_not_flag:
  "CHR ''.'' \<in> set s \<Longrightarrow> s \<noteq> ''-b:v'' \<and> s \<noteq> ''-global_quality''"
  by auto

lemma valid_codec_not_flag:
  "validate_video_codec v = Inr () \<Longrightarrow> v \<noteq> ''-b:v'' \<and> v \<noteq> ''-global_quality''"
  by (auto simp: validate_video_codec_def split: if_splits)

lemma base_command_flag_free:
  assumes "validate_video_codec video_codec = Inr ()"
    and "\<exists>pat \<in> set video_extensions. glob_match pat (path_name file)"
  shows "str_path file \<noteq> ''-global_quality''" and "video_codec \<noteq> ''-global_quality''"
    and "str_path file \<noteq> ''-b:v''" and "video_codec \<noteq> ''-b:v''"
  using dot_not_flag[OF discovered_path_dot[OF assms(2)]] valid_codec_not_flag[OF assms(1)]
  by simp_all

text \<open>
  C1. When the bitrate is absent (\<open>None\<close> or the empty string), \<open>build_ffmpeg_command\<close>
  returns, for every input, exactly the list of 15 arguments
  \<open>ffmpeg -hwaccel_output_format qsv -i <file> -vf <filter> -c:v <codec>
  -global_quality <quality> -c:a copy -y <output>\<close>: it holds \<open>-global_quality\<close>, the quality
  in slots 9 and 10, \<open>-c:a\<close>, \<open>copy\<close> in slots 11 and 12, and ends with \<open>-y\<close>, the output
  file. For the arguments \<open>main\<close> passes, the list never holds \<open>-b:v\<close>.
\<close>

theorem build_without_bitrate:
  assumes "bitrate = None \<or> bitrate = Some []"
  shows "\<exists>cmd. build_ffmpeg_command file output_file_name escaped_font_file font_color
            font_size video_codec video_quality bitrate = Inr cmd \<and>
          cmd = [''ffmpeg'', ''-hwaccel_output_format'', ''qsv'', ''-i'', str_path file,
                 ''-vf'', drawtext_filter font_color font_size escaped_font_file,
                 ''-c:v'', video_codec, ''-global_quality'', str_int video_quality,
                 ''-c:a'', ''copy'', ''-y'', str_path output_file_name] \<and>
          length cmd = 15 \<and>
          take 2 (drop 9 cmd) = [''-global_quality'', str_int video_quality] \<and>
          take 2 (drop 11 cmd) = [''-c:a'', ''copy''] \<and>
          drop 13 cmd = [''-y'', str_path output_file_name] \<and>
          (validate_video_codec video_codec = Inr () \<and>
           (\<exists>pat \<in> set video_extensions. glob_match pat (path_name file)) \<and>
           output_file_name_of input_directory output_directory output_suffix file
             = Inr output_file_name
           \<longrightarrow> ''-b:v'' \<notin> set cmd)"
proof -
  let ?base = "base_command file output_file_name escaped_font_file font_color
            font_size video_codec video_quality"
  have nt: "\<not> truthy bitrate" using assms by auto
  have bv: "validate_video_codec video_codec = Inr () \<and>
           (\<exists>pat \<in> set video_extensions. glob_match pat (path_name file)) \<and>
           output_file_name_of input_directory output_directory output_suffix file
             = Inr output_file_name
           \<longrightarrow> ''-b:v'' \<notin> set ?base"
  proof (intro impI, elim conjE)
    assume v: "validate_video_codec video_codec = Inr ()"
      and g: "\<exists>pat \<in> set video_extensions. glob_match pat (path_name file)"
      and o: "output_file_name_of input_directory output_directory output_suffix file
             = Inr output_file_name"
    have "str_path file \<noteq> ''-b:v''" "video_codec \<noteq> ''-b:v''"
      using base_command_flag_free[OF v g] by simp_all
    moreover have "str_path output_file_name \<noteq> ''-b:v''"
      using dot_not_flag[OF output_path_dot[OF g o]] by simp
    ultimately show "''-b:v'' \<notin> set ?base"
      using drawtext_not_bv[of font_color font_size escaped_font_file]
        str_int_not_bv[of video_quality]
      by (auto simp: base_command_def)
  qed
  show ?thesis
    unfolding build_no_bitrate[OF nt]
    apply (intro exI[of _ ?base] conjI refl)
         apply (simp add: base_command_def)
        apply (simp add: base_command_def)
       apply (simp add: base_command_def)
      apply (simp add: base_command_def)
     apply (simp add: base_command_def)
    apply (rule bv)
    done
qed

text \<open>The file of the example, its output path and its name.\<close>

lemma example_output:
  "output_file_name_of (Path ''In'') (Path ''Out'') ''wm'' (Path ''In/sub/clip.mov'') =
     Inr (Path ''Out/sub/clip_wm.mov'')"
  by code_simp

lemma example_name_matches:
  "\<exists>pat \<in> set video_extensions. glob_match pat (path_name (Path ''In/sub/clip.mov''))"
proof -
  have "glob_match ''*.mov'' (path_name (Path ''In/sub/clip.mov''))" by code_simp
  then show ?thesis by (auto simp: video_extensions_def)
qed

text \<open>The theorem at the empty bitrate string, for the file of the example.\<close>

theorem build_without_bitrate_witness:
  "\<exists>cmd. build_ffmpeg_command (Path ''In/sub/clip.mov'') (Path ''Out/sub/clip_wm.mov'')
            ''fonts/SimSun.ttf'' ''white'' 30 ''hevc_qsv'' 18 (Some []) = Inr cmd \<and>
          cmd = [''ffmpeg'', ''-hwaccel_output_format'', ''qsv'', ''-i'', ''In/sub/clip.mov'',
                 ''-vf'', drawtext_filter ''white'' 30 ''fonts/SimSun.ttf'',
                 ''-c:v'', ''hevc_qsv'', ''-global_quality'', ''18'',
                 ''-c:a'', ''copy'', ''-y'', ''Out/sub/clip_wm.mov''] \<and>
          ''-b:v'' \<notin> set cmd"
proof -
  have s: "str_path (Path ''In/sub/clip.mov'') = ''In/sub/clip.mov''"
    "str_path (Path ''Out/sub/clip_wm.mov'') = ''Out/sub/clip_wm.mov''"
    "str_int 18 = ''18''"
    by code_simp+
  have v: "validate_video_codec ''hevc_qsv'' = Inr ()" by (simp add: validate_video_codec_def)
  from build_without_bitrate[of "Some []" "Path ''In/sub/clip.mov''" "Path ''Out/sub/clip_wm.mov''"
      "''fonts/SimSun.ttf''" "''white''" 30 "''hevc_qsv''" 18 "Path ''In''" "Path ''Out''" "''wm''"]
    v example_name_matches example_output
  show ?thesis unfolding s by simp
qed

text \<open>
  C2, as the code has it. For a non-empty bitrate and the arguments \<open>main\<close> passes, the
  list is the list built without bitrate except that slots 9 and 10, which hold
  \<open>-global_quality\<close> and the quality there, hold \<open>-b:v\<close> and the bitrate: same length,
  every other slot unchanged. The bitrate is copied as it is, so \<open>-global_quality\<close> occurs
  in the list exactly when the bitrate is that very string.
\<close>

theorem build_bitrate_swap:
  assumes "bitrate \<noteq> []"
    and "validate_video_codec video_codec = Inr ()"
    and "\<exists>pat \<in> set video_extensions. glob_match pat (path_name file)"
    and "output_file_name_of input_directory output_directory output_suffix file
           = Inr output_file_name"
  shows "\<exists>base cmd.
          build_ffmpeg_command file output_file_name escaped_font_file font_color
            font_size video_codec video_quality None = Inr base \<and>
          build_ffmpeg_command file output_file_name escaped_font_file font_color
            font_size video_codec video_quality (Some bitrate) = Inr cmd \<and>
          length cmd = length base \<and>
          take 2 (drop 9 base) = [''-global_quality'', str_int video_quality] \<and>
          take 2 (drop 9 cmd) = [''-b:v'', bitrate] \<and>
          (\<forall>i < length base. i \<noteq> 9 \<and> i \<noteq> 10 \<longrightarrow> cmd ! i = base ! i) \<and>
          (''-global_quality'' \<in> set cmd \<longleftrightarrow> bitrate = ''-global_quality'')"
proof -
  let ?base = "base_command file output_file_name escaped_font_file font_color
            font_size video_codec video_quality"
  let ?cmd = "?base[9 := ''-b:v'', 10 := bitrate]"
  have nf: "str_path file \<noteq> ''-global_quality''" "video_codec \<noteq> ''-global_quality''"
    using base_command_flag_free[OF assms(2,3)] by simp_all
  have no: "str_path output_file_name \<noteq> ''-global_quality''"
    using dot_not_flag[OF output_path_dot[OF assms(3,4)]] by simp
  have b: "build_ffmpeg_command file output_file_name escaped_font_file font_color
            font_size video_codec video_quality None = Inr ?base"
    by (rule build_no_bitrate) simp
  have c: "build_ffmpeg_command file output_file_name escaped_font_file font_color
            font_size video_codec video_quality (Some bitrate) = Inr ?cmd"
    using assms(1) nf by (simp add: build_bitrate)
  have l: "length ?cmd = length ?base" by simp
  have q: "take 2 (drop 9 ?base) = [''-global_quality'', str_int video_quality]"
    by (simp add: base_command_def)
  have v: "take 2 (drop 9 ?cmd) = [''-b:v'', bitrate]"
    by (simp add: base_command_def)
  have f: "\<forall>i < length ?base. i \<noteq> 9 \<and> i \<noteq> 10 \<longrightarrow> ?cmd ! i = ?base ! i"
    by simp
  have g: "''-global_quality'' \<in> set ?cmd \<longleftrightarrow> bitrate = ''-global_quality''"
    using nf no drawtext_not_gq[of font_color font_size escaped_font_file]
    by (auto simp: base_command_def)
  from b c l q v f g show ?thesis by blast
qed

text \<open>The theorem at the bitrate \<open>2M\<close>, for the file of the example.\<close>

theorem build_bitrate_swap_witness:
  "\<exists>base cmd.
     build_ffmpeg_command (Path ''In/sub/clip.mov'') (Path ''Out/sub/clip_wm.mov'')
       ''fonts/SimSun.ttf'' ''white'' 30 ''hevc_qsv'' 18 None = Inr base \<and>
     build_ffmpeg_command (Path ''In/sub/clip.mov'') (Path ''Out/sub/clip_wm.mov'')
       ''fonts/SimSun.ttf'' ''white'' 30 ''hevc_qsv'' 18 (Some ''2M'') = Inr cmd \<and>
     length cmd = length base \<and>
     take 2 (drop 9 base) = [''-global_quality'', ''18''] \<and>
     take 2 (drop 9 cmd) = [''-b:v'', ''2M''] \<and>
     (\<forall>i < length base. i \<noteq> 9 \<and> i \<noteq> 10 \<longrightarrow> cmd ! i = base ! i) \<and>
     ''-global_quality'' \<notin> set cmd"
proof -
  have s: "str_int 18 = ''18''" by code_simp
  have v: "validate_video_codec ''hevc_qsv'' = Inr ()" by (simp add: validate_video_codec_def)
  have n: "''2M'' \<noteq> []" by simp
  from build_bitrate_swap[OF n v example_name_matches example_output,
      of "''fonts/SimSun.ttf''" "''white''" 30 18]
  show ?thesis unfolding s by simp
qed

text \<open>
  C2 as stated fails: a run with \<open>--bitrate=-global_quality\<close> passes the checks, and the
  command it runs for the file holds \<open>-global_quality\<close> in slot 10, as the bitrate.
\<close>

theorem bitrate_flag_string_run:
  "main (tree_os failing_encoder) (example_args\<lparr>arg_bitrate := Some ''-global_quality''\<rparr>)
     example_tree =
   (Exited 0,
    [Mkdir (Path ''Out''), Printed (msg_found (Path ''In'') 1),
     Mkdir (Path ''Out/sub''),
     Printed (msg_progress 1 1 (Path ''In/sub/clip.mov'') (Path ''Out/sub/clip_wm.mov'')),
     Ran [''ffmpeg'', ''-hwaccel_output_format'', ''qsv'', ''-i'', ''In/sub/clip.mov'',
          ''-vf'', drawtext_filter ''white'' 30 ''fonts/SimSun.ttf'',
          ''-c:v'', ''hevc_qsv'', ''-b:v'', ''-global_quality'',
          ''-c:a'', ''copy'', ''-y'', ''Out/sub/clip_wm.mov''],
     Printed msg_done],
    example_tree @ [Dir ''Out'' [Dir ''sub'' []]])"
  by code_simp

text \<open>
  C10. For every input \<open>build_ffmpeg_command\<close> returns a list and never raises: the
  list it starts from holds \<open>-global_quality\<close> in slot 9, so \<open>index\<close> finds the string
  and returns a position \<open>crf_index\<close> with \<open>0 \<le> crf_index \<le> 9\<close>, the guard holds, and
  both assignments are in range. For the arguments \<open>main\<close> passes, \<open>crf_index\<close> is 9, and
  with a non-empty bitrate the swap writes exactly slots 9 and 10.
\<close>

theorem build_total_index:
  "\<exists>cmd crf_index.
     build_ffmpeg_command file output_file_name escaped_font_file font_color
       font_size video_codec video_quality bitrate = Inr cmd \<and>
     base_command file output_file_name escaped_font_file font_color
       font_size video_codec video_quality ! 9 = ''-global_quality'' \<and>
     list_index (base_command file output_file_name escaped_font_file font_color
       font_size video_codec video_quality) ''-global_quality'' = Inr crf_index \<and>
     0 \<le> crf_index \<and> crf_index \<le> 9 \<and>
     (validate_video_codec video_codec = Inr () \<and>
      (\<exists>pat \<in> set video_extensions. glob_match pat (path_name file))
      \<longrightarrow> crf_index = 9 \<and>
          cmd = (if truthy bitrate
                 then (base_command file output_file_name escaped_font_file font_color
                         font_size video_codec video_quality)
                        [9 := ''-b:v'', 10 := the bitrate]
                 else base_command file output_file_name escaped_font_file font_color
                         font_size video_codec video_quality))"
proof -
  let ?base = "base_command file output_file_name escaped_font_file font_color
       font_size video_codec video_quality"
  let ?i = "if str_path file = ''-global_quality'' then 4
            else if video_codec = ''-global_quality'' then 8 else (9::nat)"
  obtain cmd where c: "build_ffmpeg_command file output_file_name escaped_font_file font_color
       font_size video_codec video_quality bitrate = Inr cmd"
    using build_slot6 by blast
  have n: "?base ! 9 = ''-global_quality''" by (simp add: base_command_def)
  have i: "list_index ?base ''-global_quality'' = Inr (int ?i)"
    by (simp add: list_index_def first_index_base)
  have r: "validate_video_codec video_codec = Inr () \<and>
      (\<exists>pat \<in> set video_extensions. glob_match pat (path_name file))
      \<longrightarrow> int ?i = 9 \<and>
          cmd = (if truthy bitrate then ?base[9 := ''-b:v'', 10 := the bitrate] else ?base)"
  proof (intro impI, elim conjE)
    assume v: "validate_video_codec video_codec = Inr ()"
      and g: "\<exists>pat \<in> set video_extensions. glob_match pat (path_name file)"
    have nf: "str_path file \<noteq> ''-global_quality''" "video_codec \<noteq> ''-global_quality''"
      using base_command_flag_free[OF v g] by simp_all
    have "cmd = (if truthy bitrate then ?base[9 := ''-b:v'', 10 := the bitrate] else ?base)"
    proof (cases "truthy bitrate")
      case True
      then obtain b where b: "bitrate = Some b" "b \<noteq> []" by (cases bitrate) auto
      with c nf show ?thesis by (simp add: build_bitrate)
    next
      case False
      with c show ?thesis by (simp add: build_no_bitrate)
    qed
    with nf show "int ?i = 9 \<and>
          cmd = (if truthy bitrate then ?base[9 := ''-b:v'', 10 := the bitrate] else ?base)"
      by simp
  qed
  have b: "0 \<le> int ?i" "int ?i \<le> 9" by simp_all
  from c n i b r show ?thesis by blast
qed

text \<open>The theorem at the bitrate \<open>2M\<close>, for the file of the example.\<close>

theorem build_total_index_witness:
  "\<exists>cmd. build_ffmpeg_command (Path ''In/sub/clip.mov'') (Path ''Out/sub/clip_wm.mov'')
       ''fonts/SimSun.ttf'' ''white'' 30 ''hevc_qsv'' 18 (Some ''2M'') = Inr cmd \<and>
     list_index (base_command (Path ''In/sub/clip.mov'') (Path ''Out/sub/clip_wm.mov'')
       ''fonts/SimSun.ttf'' ''white'' 30 ''hevc_qsv'' 18) ''-global_quality'' = Inr 9 \<and>
     cmd = (base_command (Path ''In/sub/clip.mov'') (Path ''Out/sub/clip_wm.mov'')
       ''fonts/SimSun.ttf'' ''white'' 30 ''hevc_qsv'' 18)[9 := ''-b:v'', 10 := ''2M'']"
proof -
  have v: "validate_video_codec ''hevc_qsv'' = Inr ()" by (simp add: validate_video_codec_def)
  from build_total_index[of "Path ''In/sub/clip.mov''" "Path ''Out/sub/clip_wm.mov''"
      "''fonts/SimSun.ttf''" "''white''" 30 "''hevc_qsv''" 18 "Some ''2M''"]
    v example_name_matches
  show ?thesis by auto
qed

section \<open>Failing and passing the checks\<close>

lemma validate_all_quality:
  "arg_video_quality a < 0 \<or> arg_video_quality a > 51 \<Longrightarrow>
     validate_all os a st = (Some (ValueError msg_invalid_quality), st)"
  by (auto simp: validate_all_def validate_video_quality_def)

lemma validate_all_codec:
  "0 \<le> arg_video_quality a \<Longrightarrow> arg_video_quality a \<le> 51 \<Longrightarrow>
   arg_video_codec a \<noteq> ''hevc_qsv'' \<Longrightarrow> arg_video_codec a \<noteq> ''h264_qsv'' \<Longrightarrow>
     validate_all os a st = (Some (ValueError msg_invalid_codec), st)"
  by (simp add: validate_all_def validate_video_quality_def validate_video_codec_def)

lemma validate_all_font:
  "0 \<le> arg_video_quality a \<Longrightarrow> arg_video_quality a \<le> 51 \<Longrightarrow>
   arg_video_codec a = ''hevc_qsv'' \<or> arg_video_codec a = ''h264_qsv'' \<Longrightarrow>
   \<not> os_exists os (snd st) (Path (arg_font_file a)) \<Longrightarrow>
     validate_all os a st =
       (Some (FileNotFoundError (msg_font_missing @ str_path (Path (arg_font_file a)))), st)"
  by (auto simp: validate_all_def validate_video_quality_def validate_video_codec_def
      ensure_font_file_exists_def)

lemma validate_all_mkdir:
  "0 \<le> arg_video_quality a \<Longrightarrow> arg_video_quality a \<le> 51 \<Longrightarrow>
   arg_video_codec a = ''hevc_qsv'' \<or> arg_video_codec a = ''h264_qsv'' \<Longrightarrow>
   os_exists os (snd st) (Path (arg_font_file a)) \<Longrightarrow>
     validate_all os a st =
       (case os_mkdir os (Path (arg_output_directory a)) (snd st) of
          (r, w') \<Rightarrow> (r, fst st @ [Mkdir (Path (arg_output_directory a))], w'))"
  by (auto simp: validate_all_def validate_video_quality_def validate_video_codec_def
      ensure_font_file_exists_def ensure_output_directory_exists_def)

text \<open>
  C7. If the quality, the codec or the existence of the font file fails its check,
  the run prints the message of the first failing check and exits with status 1, and
  that is all it does: no \<open>mkdir\<close> (the output directory is not created), no encoder,
  nothing per file, the environment as it was.
\<close>

theorem validation_failure_exits:
  assumes "arg_video_quality a < 0 \<or> arg_video_quality a > 51 \<or>
           arg_video_codec a \<notin> {''hevc_qsv'', ''h264_qsv''} \<or>
           \<not> os_exists os w (Path (arg_font_file a))"
  shows "main os a w =
           (Exited 1,
            [Printed (if arg_video_quality a < 0 \<or> arg_video_quality a > 51
                      then msg_invalid_quality
                      else if arg_video_codec a \<notin> {''hevc_qsv'', ''h264_qsv''}
                      then msg_invalid_codec
                      else msg_font_missing @ str_path (Path (arg_font_file a)))],
            w)"
proof (cases "arg_video_quality a < 0 \<or> arg_video_quality a > 51")
  case True
  then show ?thesis by (simp add: main_def validate_all_quality)
next
  case q: False
  show ?thesis
  proof (cases "arg_video_codec a \<notin> {''hevc_qsv'', ''h264_qsv''}")
    case True
    with q show ?thesis by (simp add: main_def validate_all_codec)
  next
    case False
    with q assms have "\<not> os_exists os w (Path (arg_font_file a))" by blast
    with q False show ?thesis by (simp add: main_def validate_all_font)
  qed
qed

text \<open>The theorem at the quality 52.\<close>

theorem validation_failure_exits_witness:
  "main (tree_os failing_encoder) (example_args\<lparr>arg_video_quality := 52\<rparr>) example_tree =
     (Exited 1, [Printed msg_invalid_quality], example_tree)"
  using validation_failure_exits[of "example_args\<lparr>arg_video_quality := 52\<rparr>" "tree_os failing_encoder" example_tree]
  by (simp add: example_args_def)

text \<open>
  C8. If the four checks pass and discovery finds nothing, the run prints the
  no-video-files message and exits with status 1; it has called \<open>mkdir\<close> once, for the
  output root, and no encoder, and leaves the environment as that \<open>mkdir\<close> left it.
\<close>

theorem no_video_files_exits:
  assumes "0 \<le> arg_video_quality a" and "arg_video_quality a \<le> 51"
    and "arg_video_codec a = ''hevc_qsv'' \<or> arg_video_codec a = ''h264_qsv''"
    and "os_exists os w (Path (arg_font_file a))"
    and "os_mkdir os (Path (arg_output_directory a)) w = (None, w1)"
    and "check_video_files os w1 (Path (arg_input_directory a)) video_extensions = []"
  shows "main os a w =
           (Exited 1,
            [Mkdir (Path (arg_output_directory a)),
             Printed (msg_no_video_files (Path (arg_input_directory a)))],
            w1)"
  using assms by (simp add: main_def validate_all_mkdir)

text \<open>The theorem for an input directory that holds a font only.\<close>

theorem no_video_files_exits_witness:
  "main (tree_os failing_encoder) (example_args\<lparr>arg_input_directory := ''fonts''\<rparr>)
     example_tree =
     (Exited 1, [Mkdir (Path ''Out''), Printed (msg_no_video_files (Path ''fonts''))],
      example_tree @ [Dir ''Out'' []])"
proof -
  let ?a = "example_args\<lparr>arg_input_directory := ''fonts''\<rparr>"
  let ?os = "tree_os failing_encoder"
  have 1: "0 \<le> arg_video_quality ?a" "arg_video_quality ?a \<le> 51"
    "arg_video_codec ?a = ''hevc_qsv'' \<or> arg_video_codec ?a = ''h264_qsv''"
    by (simp_all add: example_args_def)
  have 2: "os_exists ?os example_tree (Path (arg_font_file ?a))" by code_simp
  have 3: "os_mkdir ?os (Path (arg_output_directory ?a)) example_tree =
             (None, example_tree @ [Dir ''Out'' []])" by code_simp
  have 4: "check_video_files ?os (example_tree @ [Dir ''Out'' []])
             (Path (arg_input_directory ?a)) video_extensions = []" by code_simp
  show ?thesis using no_video_files_exits[OF 1 2 3 4] by (simp add: example_args_def)
qed


section \<open>The loop over the files\<close>

text \<open>
  Where an iteration can raise: in computing the output path, in \<open>mkdir\<close>, or in
  starting the encoder. Building the command never raises.
\<close>

lemma process_file_raises:
  assumes "process_file os a n idx file (log, w) = (Some e, log', w')"
  shows "output_file_name_of (Path (arg_input_directory a)) (Path (arg_output_directory a))
           (arg_output_suffix a) file = Inl e \<or>
         fst (os_mkdir os (path_parent (planned_output a file)) w) = Some e \<or>
         (\<exists>w1. fst (os_run os (planned_command a file) w1) = Inl e)"
proof -
  have t: "\<And>out. \<exists>cmd. build_ffmpeg_command file out
             (escaped_font_file_of (Path (arg_font_file a))) (arg_font_color a)
             (arg_font_size a) (arg_video_codec a) (arg_video_quality a) (arg_bitrate a)
             = Inr cmd"
    using build_slot6 by blast
  show ?thesis
  proof (cases "output_file_name_of (Path (arg_input_directory a))
           (Path (arg_output_directory a)) (arg_output_suffix a) file")
    case (Inl e')
    with assms show ?thesis by (simp add: process_file_def)
  next
    case (Inr out)
    then have po: "planned_output a file = out" by (simp add: planned_output_def)
    obtain r w1 where m: "os_mkdir os (path_parent out) w = (r, w1)"
      by (cases "os_mkdir os (path_parent out) w")
    show ?thesis
    proof (cases r)
      case (Some e')
      with assms Inr m po show ?thesis by (simp add: process_file_def)
    next
      case None
      obtain cmd where c: "build_ffmpeg_command file out
             (escaped_font_file_of (Path (arg_font_file a))) (arg_font_color a)
             (arg_font_size a) (arg_video_codec a) (arg_video_quality a) (arg_bitrate a)
             = Inr cmd"
        using t by blast
      then have pc: "planned_command a file = cmd" by (simp add: planned_command_def po)
      obtain r2 w2 where u: "os_run os cmd w1 = (r2, w2)" by (cases "os_run os cmd w1")
      show ?thesis
      proof (cases r2)
        case (Inl e')
        with assms Inr m None c u have "e = e'" by (simp add: process_file_def)
        with Inl u pc have "fst (os_run os (planned_command a file) w1) = Inl e" by simp
        then show ?thesis by blast
      next
        case (Inr rc)
        with assms \<open>output_file_name_of _ _ _ _ = Inr out\<close> m None c u show ?thesis
          by (simp add: process_file_def)
      qed
    qed
  qed
qed













end
